theory Spec2Isabelle
  imports Complex_Main
begin

section \<open>Order intake workflow of src/api/src/App.tsx\<close>

text \<open>
  The storefront keeps its state in React hooks; every handler reads the current state
  and stores a new one. Here each handler is a function from the state to the new state.
  Strings are lists of code units (the literals of the source only hold code units below
  256, written \<open>CHR 0xE3\<close> and the like where they are not ASCII). A JavaScript
  \<open>number\<close> that counts items is an \<open>int\<close>, a price or a total is a \<open>rat\<close>:
  sums and products are exact, so the rounding of binary floating point is outside the
  model, as are \<open>NaN\<close> and the infinities.
\<close>

subsection \<open>Digits and decimal numerals\<close>

definition is_digit :: "char \<Rightarrow> bool" where
  \<comment> \<open>the class \<open>\d\<close> of a regular expression without the unicode flag\<close>
  "is_digit c \<longleftrightarrow> (48::nat) \<le> of_char c \<and> of_char c \<le> (57::nat)"

definition digit_char :: "nat \<Rightarrow> char" where
  "digit_char d = ''0123456789'' ! d"

definition digit_val :: "char \<Rightarrow> nat" where
  "digit_val c = of_char c - 48"

function show_nat :: "nat \<Rightarrow> string" where
  "show_nat n = (if n < 10 then [digit_char n] else show_nat (n div 10) @ [digit_char (n mod 10)])"
  by pat_completeness auto
termination
  by (relation "measure (\<lambda>n. n)") auto

declare show_nat.simps [simp del]

definition show_int :: "int \<Rightarrow> string" where
  \<comment> \<open>\<open>`${qty}`\<close> for an integral number\<close>
  "show_int i = (if i < 0 then CHR ''-'' # show_nat (nat (- i)) else show_nat (nat i))"

definition parse_nat :: "string \<Rightarrow> nat" where
  \<comment> \<open>\<open>parseInt\<close> on a string of decimal digits\<close>
  "parse_nat s = foldl (\<lambda>acc c. 10 * acc + digit_val c) 0 s"

subsection \<open>Objects used as dictionaries\<close>

text \<open>
  \<open>Record<string, number>\<close> is a plain object. \<open>Object.entries\<close> lists its keys in
  the order of the language: first the keys that are array indices (canonical decimal
  numerals below \<open>2^32 - 1\<close>) in ascending numeric order, then every other key in the
  order of its first insertion. An object is the list of its entries in that order.
  Keys that name a property of \<open>Object.prototype\<close> are outside the model.
\<close>

type_synonym obj = "(string \<times> int) list"

definition is_array_index :: "string \<Rightarrow> bool" where
  "is_array_index k \<longleftrightarrow>
     k \<noteq> [] \<and> list_all is_digit k \<and> (k = ''0'' \<or> hd k \<noteq> CHR ''0'') \<and> parse_nat k < 2 ^ 32 - 1"

definition obj_get :: "obj \<Rightarrow> string \<Rightarrow> int option" where
  \<comment> \<open>\<open>o[k]\<close>, with \<open>None\<close> for \<open>undefined\<close>\<close>
  "obj_get ob k = map_of ob k"

definition obj_delete :: "obj \<Rightarrow> string \<Rightarrow> obj" where
  \<comment> \<open>\<open>delete o[k]\<close>\<close>
  "obj_delete ob k = filter (\<lambda>e. fst e \<noteq> k) ob"

fun insert_index :: "string \<Rightarrow> int \<Rightarrow> obj \<Rightarrow> obj" where
  "insert_index k v [] = [(k, v)]"
| "insert_index k v (e # rest) =
     (if is_array_index (fst e) \<and> parse_nat (fst e) < parse_nat k
      then e # insert_index k v rest
      else (k, v) # e # rest)"

definition obj_set :: "obj \<Rightarrow> string \<Rightarrow> int \<Rightarrow> obj" where
  \<comment> \<open>\<open>o[k] = v\<close>: an existing key keeps its place\<close>
  "obj_set ob k v =
     (if k \<in> fst ` set ob then map (\<lambda>e. if fst e = k then (k, v) else e) ob
      else if is_array_index k then insert_index k v ob
      else ob @ [(k, v)])"

subsection \<open>Catalog and draft\<close>

record product =
  pid :: string
  pname :: string
  price :: rat
  description :: "string option"
  image :: "string option"

datatype payment = Zelle | Cash

record order_data =
  name :: string
  phone :: string
  selectedItems :: obj
  paymentMethod :: payment
  time :: string

definition find_product :: "product list \<Rightarrow> string \<Rightarrow> product option" where
  \<comment> \<open>\<open>products.find(p => String(p.id) === String(id))\<close>\<close>
  "find_product ps k = find (\<lambda>p. pid p = k) ps"

definition or_zero :: "int option \<Rightarrow> int" where
  \<comment> \<open>\<open>x || 0\<close>: \<open>undefined\<close> and \<open>0\<close> both give \<open>0\<close>\<close>
  "or_zero x = (case x of None \<Rightarrow> 0 | Some q \<Rightarrow> if q = 0 then 0 else q)"

definition updateItemQuantity :: "string \<Rightarrow> int \<Rightarrow> order_data \<Rightarrow> order_data" where
  "updateItemQuantity k delta prev =
     (let newQty = or_zero (obj_get (selectedItems prev) k) + delta;
          newItems = (if newQty \<le> 0 then obj_delete (selectedItems prev) k
                      else obj_set (selectedItems prev) k newQty)
      in prev\<lparr>selectedItems := newItems\<rparr>)"

definition total :: "product list \<Rightarrow> obj \<Rightarrow> rat" where
  "total ps items =
     foldl (\<lambda>acc e.
        let product = find_product ps (fst e);
            price = (case product of Some p \<Rightarrow> price p | None \<Rightarrow> 0)
        in acc + price * of_int (snd e)) 0 items"

text \<open>The clicks of the two buttons of a catalog row, and a run of clicks.\<close>

datatype click = Increment string | Decrement string

fun apply_click :: "order_data \<Rightarrow> click \<Rightarrow> order_data" where
  "apply_click od (Increment k) = updateItemQuantity k 1 od"
| "apply_click od (Decrement k) = updateItemQuantity k (- 1) od"

definition apply_clicks :: "order_data \<Rightarrow> click list \<Rightarrow> order_data" where
  "apply_clicks od cs = foldl apply_click od cs"

definition initial_orderData :: order_data where
  "initial_orderData =
     \<lparr>name = [], phone = [], selectedItems = [], paymentMethod = Zelle, time = []\<rparr>"

definition catalog_price :: "product list \<Rightarrow> string \<Rightarrow> rat option" where
  \<comment> \<open>the price the catalog now gives for a product id, if it has the id\<close>
  "catalog_price ps k = map_option price (find_product ps k)"

definition entry_amount :: "product list \<Rightarrow> string \<times> int \<Rightarrow> rat" where
  \<comment> \<open>what the spec lets one cart entry contribute to the total\<close>
  "entry_amount ps e =
     (case catalog_price ps (fst e) of None \<Rightarrow> 0 | Some pr \<Rightarrow> of_int (snd e) * pr)"

subsection \<open>Contact validation\<close>

text \<open>
  The regular expression of \<open>validatePhone\<close> is a sequence of single-character atoms
  between \<open>^\<close> and \<open>$\<close>; \<open>\d{3}\<close> is three times the atom \<open>\d\<close>. Without the
  multiline flag \<open>$\<close> only matches at the end of the input, so \<open>test\<close> holds when the
  atoms match the whole string, one character each.
\<close>

datatype atom = Lit char | Digit

fun atom_matches :: "atom \<Rightarrow> char \<Rightarrow> bool" where
  "atom_matches (Lit a) c = (c = a)"
| "atom_matches Digit c = is_digit c"

fun matches_all :: "atom list \<Rightarrow> string \<Rightarrow> bool" where
  "matches_all [] [] = True"
| "matches_all (a # as) (c # cs) = (atom_matches a c \<and> matches_all as cs)"
| "matches_all _ _ = False"

definition phoneRegex :: "atom list" where
  \<comment> \<open>\<open>/^\(\d{3}\) \d{3}-\d{4}$/\<close>\<close>
  "phoneRegex =
     [Lit CHR ''(''] @ replicate 3 Digit @ [Lit CHR '')'', Lit CHR '' ''] @ replicate 3 Digit @
     [Lit CHR ''-''] @ replicate 4 Digit"

definition validatePhone :: "string \<Rightarrow> bool" where
  "validatePhone s = matches_all phoneRegex s"

definition phone_shape :: "string \<Rightarrow> bool" where
  \<comment> \<open>the shape \<open>(DDD) DDD-DDDD\<close> in the words of the spec\<close>
  "phone_shape s \<longleftrightarrow>
     (\<exists>a b c. s = ''('' @ a @ '') '' @ b @ ''-'' @ c \<and>
        length a = 3 \<and> length b = 3 \<and> length c = 4 \<and>
        list_all is_digit a \<and> list_all is_digit b \<and> list_all is_digit c)"

subsection \<open>Dates\<close>

text \<open>
  The handlers only ask a \<open>Date\<close> for its local calendar day (\<open>format\<close> with the
  patterns \<open>yyyy-MM-dd\<close> and \<open>dd/MM/yyyy\<close>) and for its day of the week (\<open>isSunday\<close>),
  so a date is its calendar day. The day of the week of the proleptic Gregorian calendar
  is computed from year, month and day; 0 is Sunday.
\<close>

record date =
  year :: nat
  month :: nat
  day :: nat

definition pad :: "nat \<Rightarrow> string \<Rightarrow> string" where
  "pad w s = replicate (w - length s) CHR ''0'' @ s"

definition format_ymd :: "date \<Rightarrow> string" where
  \<comment> \<open>\<open>format(date, 'yyyy-MM-dd')\<close>\<close>
  "format_ymd d =
     pad 4 (show_nat (year d)) @ ''-'' @ pad 2 (show_nat (month d)) @ ''-'' @ pad 2 (show_nat (day d))"

definition format_dmy :: "date \<Rightarrow> string" where
  \<comment> \<open>\<open>format(date, 'dd/MM/yyyy')\<close>\<close>
  "format_dmy d =
     pad 2 (show_nat (day d)) @ ''/'' @ pad 2 (show_nat (month d)) @ ''/'' @ pad 4 (show_nat (year d))"

definition month_offset :: "nat \<Rightarrow> nat" where
  "month_offset m =
     (if m = 1 then 0 else if m = 2 then 3 else if m = 3 then 2 else if m = 4 then 5
      else if m = 5 then 0 else if m = 6 then 3 else if m = 7 then 5 else if m = 8 then 1
      else if m = 9 then 4 else if m = 10 then 6 else if m = 11 then 2 else 4)"

definition day_of_week :: "date \<Rightarrow> nat" where
  "day_of_week d =
     (let y = (if month d < 3 then year d - 1 else year d)
      in (y + y div 4 - y div 100 + y div 400 + month_offset (month d) + day d) mod 7)"

definition isSunday :: "date \<Rightarrow> bool" where
  "isSunday d \<longleftrightarrow> day_of_week d = 0"

definition date_before :: "date \<Rightarrow> date \<Rightarrow> bool" where
  \<comment> \<open>the first calendar day is earlier than the second\<close>
  "date_before a b \<longleftrightarrow>
     year a < year b \<or> (year a = year b \<and> (month a < month b \<or> (month a = month b \<and> day a < day b)))"

subsection \<open>State of the workflow\<close>

text \<open>
  The hooks of \<open>App\<close> that the intake workflow reads or writes. The hooks of the admin
  console are left out.
\<close>

datatype page = Schedule | Order | Success | Admin

datatype day_status = Available | SoldOut

record app_state =
  page :: page
  selectedDate :: "date option"
  availability :: "string \<rightharpoonup> day_status"
  loading :: bool
  phoneError :: string
  products :: "product list"
  orderData :: order_data

definition initial_state :: app_state where
  "initial_state =
     \<lparr>page = Schedule, selectedDate = None, availability = Map.empty, loading = False,
      phoneError = [], products = [], orderData = initial_orderData\<rparr>"

definition TIME_SLOTS :: "string list" where
  "TIME_SLOTS =
     [''08:00'', ''08:30'', ''09:00'', ''09:30'', ''10:00'', ''10:30'', ''11:00'', ''11:30'',
      ''12:00'', ''12:30'', ''13:00'', ''13:30'', ''14:00'', ''14:30'', ''15:00'', ''15:30'',
      ''16:00'', ''16:30'', ''17:00'', ''17:30'', ''18:00'']"

subsection \<open>Date and slot selection\<close>

definition handleDateSelect :: "date option \<Rightarrow> app_state \<Rightarrow> app_state" where
  "handleDateSelect date st =
     (case date of
        None \<Rightarrow> st
      | Some d \<Rightarrow>
          if availability st (format_ymd d) = Some SoldOut then st
          else st\<lparr>selectedDate := Some d\<rparr>)"

definition filterDate :: "date \<Rightarrow> bool" where
  \<comment> \<open>the prop \<open>filterDate={(date) => !isSunday(date)}\<close>\<close>
  "filterDate d \<longleftrightarrow> \<not> isSunday d"

text \<open>
  The calendar is the \<open>DatePicker\<close> component with the props \<open>minDate={new Date()}\<close>,
  \<open>filterDate\<close> and \<open>onChange={handleDateSelect}\<close>. The component takes no click on a
  day before \<open>minDate\<close> or on a day that \<open>filterDate\<close> refuses; for every other day it
  calls \<open>onChange\<close> with the day. \<open>today\<close> stands for \<open>new Date()\<close>.
\<close>

definition datePicker_select :: "date \<Rightarrow> date \<Rightarrow> app_state \<Rightarrow> app_state" where
  "datePicker_select today d st =
     (if date_before d today \<or> \<not> filterDate d then st else handleDateSelect (Some d) st)"

text \<open>
  The part of the initial effect that reads the query string, after the catalog and the
  settings have been fetched. \<open>dateParam\<close> and \<open>timeParam\<close> are the results of
  \<open>params.get('data')\<close> and \<open>params.get('hora')\<close> (\<open>None\<close> for \<open>null\<close>). \<open>parseDate\<close>
  stands for the \<open>Date\<close> constructor of the browser on a string, \<open>None\<close> when the
  result is an invalid date, which is what \<open>isNaN(date.getTime())\<close> tests.
\<close>

definition fetchData :: "(string \<Rightarrow> date option) \<Rightarrow> string option \<Rightarrow> string option \<Rightarrow> app_state \<Rightarrow> app_state" where
  "fetchData parseDate dateParam timeParam st =
     (case dateParam of
        None \<Rightarrow> st
      | Some dp \<Rightarrow>
          if dp = [] then st
          else (case parseDate (dp @ ''T12:00:00'') of
              None \<Rightarrow> st
            | Some date \<Rightarrow>
                if isSunday date then st
                else (let st1 = st\<lparr>selectedDate := Some date\<rparr> in
                  case timeParam of
                    None \<Rightarrow> st1
                  | Some tp \<Rightarrow>
                      if tp \<noteq> [] \<and> tp \<in> set TIME_SLOTS
                      then st1\<lparr>orderData := (orderData st1)\<lparr>time := tp\<rparr>, page := Order\<rparr>
                      else st1)))"

definition example_parseDate :: "string \<Rightarrow> date option" where
  \<comment> \<open>a date parser that knows two days, for the examples\<close>
  "example_parseDate s =
     (if s = ''2026-03-02T12:00:00'' then Some \<lparr>year = 2026, month = 3, day = 2\<rparr>
      else if s = ''2026-03-01T12:00:00'' then Some \<lparr>year = 2026, month = 3, day = 1\<rparr>
      else None)"

definition valid_date_param :: "(string \<Rightarrow> date option) \<Rightarrow> string \<Rightarrow> date \<Rightarrow> bool" where
  \<comment> \<open>the date parameter is not empty and parses as the day \<open>d\<close>, which is not a Sunday\<close>
  "valid_date_param parseDate dp d \<longleftrightarrow>
     dp \<noteq> [] \<and> parseDate (dp @ ''T12:00:00'') = Some d \<and> \<not> isSunday d"

definition example_state :: app_state where
  \<comment> \<open>the first state, with an availability map that closes Tuesday 2026-03-03\<close>
  "example_state = initial_state\<lparr>availability :=
      [''2026-03-01'' \<mapsto> Available, ''2026-03-03'' \<mapsto> SoldOut]\<rparr>"

subsection \<open>Submission\<close>

fun js_join :: "string \<Rightarrow> string list \<Rightarrow> string" where
  \<comment> \<open>\<open>Array.prototype.join\<close>\<close>
  "js_join sep [] = []"
| "js_join sep [x] = x"
| "js_join sep (x # y # rest) = x @ sep @ js_join sep (y # rest)"

definition newline :: string where
  "newline = [CHR 0x0A]"

definition item_line :: "product list \<Rightarrow> string \<times> int \<Rightarrow> string" where
  \<comment> \<open>\<open>`${qty}x ${p?.name}`\<close>; the name of a product that is not found prints as
     \<open>undefined\<close>\<close>
  "item_line ps e =
     (let p = find_product ps (fst e)
      in show_int (snd e) @ ''x '' @ (case p of Some pr \<Rightarrow> pname pr | None \<Rightarrow> ''undefined''))"

definition itemsSummary :: "product list \<Rightarrow> obj \<Rightarrow> string" where
  \<comment> \<open>the same expression in \<open>submitOrder\<close> and in \<open>sendWhatsApp\<close>\<close>
  "itemsSummary ps items = js_join newline (map (item_line ps) items)"

text \<open>The body of the request to \<open>/api/orders\<close>; the field \<open>total\<close> is \<open>order_total\<close> here.\<close>

record payload =
  customer_name :: string
  customer_phone :: string
  order_date :: string
  order_time :: string
  items :: string
  order_total :: rat
  payment_method :: payment

text \<open>
  What \<open>fetch\<close> gives back: it rejects (no response), or it resolves with a response
  that has the flag \<open>ok\<close> and a body. The body is the value that \<open>res.json()\<close> parses,
  \<open>None\<close> when the text is not JSON and \<open>res.json()\<close> rejects.
\<close>

datatype json = JNull | JBool bool | JNum rat | JStr string | JArr "json list"
  | JObj "(string \<times> json) list"

datatype fetch_result = NetworkError | Response bool "json option"

fun truthy :: "json \<Rightarrow> bool" where
  "truthy JNull = False"
| "truthy (JBool b) = b"
| "truthy (JNum n) = (n \<noteq> 0)"
| "truthy (JStr s) = (s \<noteq> [])"
| "truthy (JArr _) = True"
| "truthy (JObj _) = True"

fun error_field :: "json \<Rightarrow> json option" where
  \<comment> \<open>\<open>err.error\<close> for a parsed value that is not \<open>null\<close>, \<open>None\<close> for \<open>undefined\<close>;
     of two members with the same key \<open>JSON.parse\<close> keeps the last\<close>
  "error_field (JObj members) = map_of (rev members) ''error''"
| "error_field _ = None"

definition phone_error_message :: string where
  "phone_error_message =
     ''Por favor, insira um telefone v'' @ [CHR 0xE1] @ ''lido no formato (XXX) XXX-XXXX''"

definition connection_error :: string where
  "connection_error = ''Erro de conex'' @ [CHR 0xE3] @ ''o''"

definition processing_error :: string where
  "processing_error = ''Erro ao processar pedido''"

definition orderPayload :: "app_state \<Rightarrow> date \<Rightarrow> payload" where
  "orderPayload st d =
     \<lparr>customer_name = name (orderData st),
      customer_phone = phone (orderData st),
      order_date = format_ymd d,
      order_time = time (orderData st),
      items = itemsSummary (products st) (selectedItems (orderData st)),
      order_total = total (products st) (selectedItems (orderData st)),
      payment_method = paymentMethod (orderData st)\<rparr>"

text \<open>
  The result of a submission: the state when the handler has finished, the requests
  sent to the order store and the arguments of the calls of \<open>alert\<close>, in order.
\<close>

record outcome =
  state :: app_state
  requests :: "payload list"
  alerts :: "json list"

definition submitOrder :: "(payload \<Rightarrow> fetch_result) \<Rightarrow> app_state \<Rightarrow> outcome" where
  "submitOrder server st =
     (case selectedDate st of
        None \<Rightarrow> \<lparr>state = st, requests = [], alerts = []\<rparr>
      | Some d \<Rightarrow>
          if total (products st) (selectedItems (orderData st)) = 0
          then \<lparr>state = st, requests = [], alerts = []\<rparr>
          else if \<not> validatePhone (phone (orderData st))
          then \<lparr>state = st\<lparr>phoneError := phone_error_message\<rparr>, requests = [], alerts = []\<rparr>
          else
            (let body = orderPayload st d in
             case server body of
               NetworkError \<Rightarrow>
                 \<lparr>state = st\<lparr>loading := False\<rparr>, requests = [body],
                  alerts = [JStr connection_error]\<rparr>
             | Response ok parsed \<Rightarrow>
                 if ok
                 then \<lparr>state = st\<lparr>page := Success, loading := False\<rparr>, requests = [body],
                       alerts = []\<rparr>
                 else
                   (case parsed of
                      None \<Rightarrow>
                        \<lparr>state = st\<lparr>loading := False\<rparr>, requests = [body],
                         alerts = [JStr connection_error]\<rparr>
                    | Some JNull \<Rightarrow>
                        \<lparr>state = st\<lparr>loading := False\<rparr>, requests = [body],
                         alerts = [JStr connection_error]\<rparr>
                    | Some err \<Rightarrow>
                        \<lparr>state = st\<lparr>loading := False\<rparr>, requests = [body],
                         alerts =
                           [case error_field err of
                              None \<Rightarrow> JStr processing_error
                            | Some e \<Rightarrow> if truthy e then e else JStr processing_error]\<rparr>)))"

definition accepting_server :: "payload \<Rightarrow> fetch_result" where
  \<comment> \<open>an order store that accepts every order\<close>
  "accepting_server body = Response True (Some (JObj []))"



definition example_catalog :: "product list" where
  "example_catalog =
     [\<lparr>pid = ''A'', pname = ''A'', price = 5, description = None, image = None\<rparr>,
      \<lparr>pid = ''B'', pname = ''B'', price = 3, description = None, image = None\<rparr>]"

definition example_draft :: app_state where
  \<comment> \<open>the draft of Ana: Monday 2026-03-02 at 10:00, two A and one B, paid by Zelle\<close>
  "example_draft =
     \<lparr>page = Order, selectedDate = Some \<lparr>year = 2026, month = 3, day = 2\<rparr>,
      availability = Map.empty, loading = False, phoneError = [], products = example_catalog,
      orderData = \<lparr>name = ''Ana'', phone = ''(770) 111-2222'',
        selectedItems = [(''A'', 2), (''B'', 1)], paymentMethod = Zelle, time = ''10:00''\<rparr>\<rparr>"

definition example_bad_phone :: app_state where
  "example_bad_phone = example_draft\<lparr>orderData := (orderData example_draft)\<lparr>phone := ''(770) 111''\<rparr>\<rparr>"

definition example_no_date_bad_phone :: app_state where
  \<comment> \<open>the draft of Ana with a phone cut short and no date selected\<close>
  "example_no_date_bad_phone = example_bad_phone\<lparr>selectedDate := None\<rparr>"

definition example_empty_cart :: app_state where
  "example_empty_cart = example_draft\<lparr>orderData := (orderData example_draft)\<lparr>selectedItems := []\<rparr>\<rparr>"

subsection \<open>Confirmation message\<close>

definition toFixed2 :: "rat \<Rightarrow> string" where
  \<comment> \<open>\<open>x.toFixed(2)\<close>: the nearest multiple of 0.01, the larger of two\<close>
  "toFixed2 x =
     (let n = nat \<lfloor>\<bar>x\<bar> * 100 + 1 / 2\<rfloor>;
          ds = pad 3 (show_nat n)
      in (if x < 0 then ''-'' else []) @ take (length ds - 2) ds @ ''.'' @ drop (length ds - 2) ds)"

definition message_before_items :: "app_state \<Rightarrow> string" where
  "message_before_items st =
     ''Ol'' @ [CHR 0xE1] @ ''! Gostaria de confirmar meu pedido:'' @ newline @
     ''*Cliente:* '' @ name (orderData st) @ newline @
     ''*Telefone:* '' @ phone (orderData st) @ newline @
     ''*Data:* '' @ (case selectedDate st of Some d \<Rightarrow> format_dmy d | None \<Rightarrow> []) @ newline @
     ''*Hor'' @ [CHR 0xE1] @ ''rio:* '' @ time (orderData st) @ newline @
     ''*Itens:*'' @ newline"

definition message_after_items :: "app_state \<Rightarrow> string" where
  "message_after_items st =
     newline @ newline @
     ''*Total:* $'' @ toFixed2 (total (products st) (selectedItems (orderData st))) @ newline @
     newline @
     ''*Pagamento:* '' @
       (case paymentMethod (orderData st) of
          Zelle \<Rightarrow> ''Via Zelle. Our Zelle: 7708757348.''
        | Cash \<Rightarrow> ''Cash (Pagamento na entrega/retirada).'') @ newline @
     ''_Pedido sujeito '' @ [CHR 0xE0] @ '' confirma'' @ [CHR 0xE7, CHR 0xE3] @ ''o._''"

definition sendWhatsApp :: "app_state \<Rightarrow> string" where
  \<comment> \<open>the \<open>message\<close> of \<open>sendWhatsApp\<close>, before it is encoded into the link\<close>
  "sendWhatsApp st =
     message_before_items st @
     itemsSummary (products st) (selectedItems (orderData st)) @
     message_after_items st"

subsection \<open>Reading an items text back\<close>

definition is_space :: "char \<Rightarrow> bool" where
  \<comment> \<open>the code units below 256 of the class \<open>\s\<close>, which are also the ones \<open>trim\<close>
     removes: tab, line feed, vertical tab, form feed, carriage return, space, no-break
     space\<close>
  "is_space c \<longleftrightarrow> of_char c \<in> {9, 10, 11, 12, 13, 32, 160 :: nat}"

definition is_line_terminator :: "char \<Rightarrow> bool" where
  \<comment> \<open>the code units below 256 that \<open>.\<close> does not match\<close>
  "is_line_terminator c \<longleftrightarrow> of_char c \<in> {10, 13 :: nat}"

definition js_trim :: "string \<Rightarrow> string" where
  "js_trim s = rev (dropWhile is_space (rev (dropWhile is_space s)))"

definition push_char :: "char \<Rightarrow> string list \<Rightarrow> string list" where
  \<comment> \<open>one more character in front of the first part\<close>
  "push_char c parts = (case parts of [] \<Rightarrow> [[c]] | p # ps \<Rightarrow> (c # p) # ps)"

fun split_items :: "string \<Rightarrow> string list" where
  \<comment> \<open>\<open>s.split(/, |\n/)\<close>\<close>
  "split_items [] = [[]]"
| "split_items [c] = (if c = CHR 0x0A then [[], []] else [[c]])"
| "split_items (c # d # cs) =
     (if c = CHR '','' \<and> d = CHR '' '' then [] # split_items cs
      else if c = CHR 0x0A then [] # split_items (d # cs)
      else push_char c (split_items (d # cs)))"

text \<open>
  \<open>p.match(/^(\d+)x\s+(.+)$/)\<close>, with the two groups of a match. \<open>\d+\<close> takes the
  longest run of digits, since the next character has to be \<open>x\<close>. \<open>\s+\<close> takes the
  longest run of white space; when something is left after it, the second group is all
  of it, and the match fails when a line terminator is in it, which \<open>.\<close> refuses. When
  nothing is left, \<open>\s+\<close> gives back its last character to the second group, which works
  when the run has two characters or more and the last is no line terminator.
\<close>

definition match_item :: "string \<Rightarrow> (string \<times> string) option" where
  "match_item p =
     (let ds = takeWhile is_digit p; r1 = dropWhile is_digit p in
      if ds = [] then None
      else (case r1 of
          [] \<Rightarrow> None
        | c # r2 \<Rightarrow>
            if c \<noteq> CHR ''x'' then None
            else (let ws = takeWhile is_space r2; rest = dropWhile is_space r2 in
              if ws = [] then None
              else if rest \<noteq> [] then
                (if list_ex is_line_terminator rest then None else Some (ds, rest))
              else if 2 \<le> length ws \<and> \<not> is_line_terminator (last ws) then Some (ds, [last ws])
              else None)))"

definition find_by_name :: "product list \<Rightarrow> string \<Rightarrow> product option" where
  \<comment> \<open>\<open>products.find(prod => prod.name === productName)\<close>\<close>
  "find_by_name ps n = find (\<lambda>prod. pname prod = n) ps"

definition read_part :: "product list \<Rightarrow> obj \<Rightarrow> string \<Rightarrow> obj" where
  \<comment> \<open>the body of the \<open>forEach\<close> of \<open>startEditingOrder\<close>\<close>
  "read_part ps itemsMap p =
     (case match_item p of
        None \<Rightarrow> itemsMap
      | Some m \<Rightarrow>
          (let qty = int (parse_nat (fst m));
               productName = js_trim (snd m)
           in case find_by_name ps productName of
                None \<Rightarrow> itemsMap
              | Some product \<Rightarrow> obj_set itemsMap (pid product) qty))"

definition startEditingOrder :: "product list \<Rightarrow> string \<Rightarrow> obj" where
  \<comment> \<open>the \<open>itemsMap\<close> that \<open>startEditingOrder\<close> stores as \<open>editingItems\<close>, from the
     \<open>items\<close> text of the order\<close>
  "startEditingOrder ps items_text =
     foldl (read_part ps) [] (filter (\<lambda>p. p \<noteq> []) (split_items items_text))"

fun has_comma_space :: "string \<Rightarrow> bool" where
  "has_comma_space [] = False"
| "has_comma_space [c] = False"
| "has_comma_space (c # d # cs) = ((c = CHR '','' \<and> d = CHR '' '') \<or> has_comma_space (d # cs))"

definition clean_name :: "string \<Rightarrow> bool" where
  \<comment> \<open>a product name that an items text can carry: not empty, no white space at either
     end, no comma followed by a space, no line terminator\<close>
  "clean_name n \<longleftrightarrow>
     n \<noteq> [] \<and> \<not> is_space (hd n) \<and> \<not> is_space (last n) \<and> \<not> has_comma_space n \<and>
     \<not> list_ex is_line_terminator n"

definition names_identify :: "product list \<Rightarrow> bool" where
  \<comment> \<open>no two products of the catalog with different ids have the same name\<close>
  "names_identify ps \<longleftrightarrow> (\<forall>p\<in>set ps. \<forall>p'\<in>set ps. pname p = pname p' \<longrightarrow> pid p = pid p')"

definition example_comma_catalog :: "product list" where
  "example_comma_catalog =
     [\<lparr>pid = ''1'', pname = ''Queijo, doce'', price = 5, description = None, image = None\<rparr>]"

definition entry_ok :: "product list \<Rightarrow> string \<times> int \<Rightarrow> bool" where
  \<comment> \<open>a cart entry with a quantity above zero whose id the catalog holds, under a clean name\<close>
  "entry_ok ps e \<longleftrightarrow>
     0 < snd e \<and> (case find_product ps (fst e) of None \<Rightarrow> False | Some p \<Rightarrow> clean_name (pname p))"

definition example_comma_draft :: app_state where
  \<comment> \<open>the draft of Ana with two of a product whose name holds a comma and a space\<close>
  "example_comma_draft =
     example_draft\<lparr>products := example_comma_catalog,
       orderData := (orderData example_draft)\<lparr>selectedItems := [(''1'', 2)]\<rparr>\<rparr>"

definition sep_free :: "string \<Rightarrow> bool" where
  \<comment> \<open>a text in which \<open>split(/, |\n/)\<close> finds no separator\<close>
  "sep_free l \<longleftrightarrow> CHR 0x0A \<notin> set l \<and> \<not> has_comma_space l"

section \<open>Properties\<close>

subsection \<open>Objects\<close>

lemma obj_delete_absent: "obj_get ob k = None \<Longrightarrow> obj_delete ob k = ob"
  unfolding obj_get_def obj_delete_def
  by (induction ob) (auto split: if_splits)

lemma set_insert_index: "set (insert_index k v ob) = insert (k, v) (set ob)"
  by (induction ob) auto

lemma in_obj_set: "e \<in> set (obj_set ob k v) \<Longrightarrow> e \<in> set ob \<or> snd e = v"
  unfolding obj_set_def by (auto simp: set_insert_index split: if_splits)

lemma in_obj_delete: "e \<in> set (obj_delete ob k) \<Longrightarrow> e \<in> set ob"
  unfolding obj_delete_def by simp

lemma map_of_replace:
  "map_of (map (\<lambda>e. if fst e = k then (k, v) else e) ob) k' =
     (if k' = k \<and> k \<in> fst ` set ob then Some v else map_of ob k')"
  by (induction ob) (fastforce simp: image_iff)+

lemma map_of_insert_index:
  "k \<notin> fst ` set ob \<Longrightarrow> map_of (insert_index k v ob) = (map_of ob)(k \<mapsto> v)"
  by (induction ob) (auto simp: fun_eq_iff)

lemma obj_get_set: "obj_get (obj_set ob k v) k' = (if k' = k then Some v else obj_get ob k')"
proof (cases "k \<in> fst ` set ob")
  case True
  then show ?thesis
    unfolding obj_get_def obj_set_def by (simp add: map_of_replace)
next
  case False
  then have "map_of ob k = None"
    by (simp add: map_of_eq_None_iff)
  with False show ?thesis
    unfolding obj_get_def obj_set_def
    by (auto simp: map_of_insert_index map_add_def split: option.splits)
qed

lemma obj_get_delete: "obj_get (obj_delete ob k) k' = (if k' = k then None else obj_get ob k')"
  unfolding obj_get_def obj_delete_def
  by (induction ob) auto

lemma obj_get_positive: "\<forall>e\<in>set ob. 0 < snd e \<Longrightarrow> obj_get ob k = Some q \<Longrightarrow> 0 < q"
  unfolding obj_get_def by (fastforce dest: map_of_SomeD)

lemmas eval_obj = obj_get_def obj_set_def obj_delete_def is_array_index_def is_digit_def
  parse_nat_def digit_val_def

lemmas eval_cart = apply_clicks_def updateItemQuantity_def or_zero_def initial_orderData_def eval_obj

subsection \<open>Decimal numerals\<close>

lemma lt10_cases: "(d::nat) < 10 \<Longrightarrow> d \<in> {0, 1, 2, 3, 4, 5, 6, 7, 8, 9}"
  by auto

lemma digit_char_digit: "d < 10 \<Longrightarrow> is_digit (digit_char d)"
  by (drule lt10_cases) (auto simp: is_digit_def digit_char_def)

lemma digit_val_char: "d < 10 \<Longrightarrow> digit_val (digit_char d) = d"
  by (drule lt10_cases) (auto simp: digit_val_def digit_char_def)

lemma show_nat_digits: "list_all is_digit (show_nat n)"
proof (induction n rule: show_nat.induct)
  case (1 n)
  then show ?case
    by (subst show_nat.simps) (simp add: digit_char_digit)
qed

lemma show_nat_nonempty: "show_nat n \<noteq> []"
  by (subst show_nat.simps) simp

lemma parse_nat_snoc: "parse_nat (s @ [c]) = 10 * parse_nat s + digit_val c"
  by (simp add: parse_nat_def)

lemma parse_show_nat: "parse_nat (show_nat n) = n"
proof (induction n rule: show_nat.induct)
  case (1 n)
  show ?case
  proof (cases "n < 10")
    case True
    then show ?thesis by (subst show_nat.simps) (simp add: parse_nat_def digit_val_char)
  next
    case False
    with 1 show ?thesis
      by (subst show_nat.simps) (simp add: parse_nat_snoc digit_val_char)
  qed
qed

subsection \<open>Cart assembly\<close>

lemma updateItemQuantity_positive:
  assumes "\<forall>e\<in>set (selectedItems od). 0 < snd e"
  shows "\<forall>e\<in>set (selectedItems (updateItemQuantity k delta od)). 0 < snd e"
proof (cases "or_zero (obj_get (selectedItems od) k) + delta \<le> 0")
  case True
  then have "selectedItems (updateItemQuantity k delta od) = obj_delete (selectedItems od) k"
    by (simp add: updateItemQuantity_def)
  with assms show ?thesis
    by (auto dest: in_obj_delete)
next
  case False
  then have "selectedItems (updateItemQuantity k delta od) =
      obj_set (selectedItems od) k (or_zero (obj_get (selectedItems od) k) + delta)"
    by (simp add: updateItemQuantity_def)
  with assms False show ?thesis
    by (auto dest!: in_obj_set)
qed

lemma apply_clicks_positive:
  "\<forall>e\<in>set (selectedItems od). 0 < snd e \<Longrightarrow>
   \<forall>e\<in>set (selectedItems (apply_clicks od cs)). 0 < snd e"
  unfolding apply_clicks_def
proof (induction cs arbitrary: od)
  case Nil
  then show ?case by simp
next
  case (Cons c cs)
  have "\<forall>e\<in>set (selectedItems (apply_click od c)). 0 < snd e"
    using Cons.prems by (cases c) (simp_all add: updateItemQuantity_positive)
  then show ?case
    using Cons.IH by simp
qed

text \<open>
  C1. Whatever run of increment and decrement clicks is applied to the empty cart, every
  entry of the resulting \<open>selectedItems\<close> has a quantity above zero. In such a cart an
  increment stores 1 for an absent key and one more for a present key, and a decrement
  removes the key when the quantity would reach zero or below and stores one less
  otherwise.
\<close>

theorem cart_quantities_positive:
  assumes "od = apply_clicks initial_orderData cs"
  shows "(\<forall>e\<in>set (selectedItems od). 0 < snd e) \<and>
     obj_get (selectedItems (updateItemQuantity k 1 od)) k =
       (case obj_get (selectedItems od) k of None \<Rightarrow> Some 1 | Some q \<Rightarrow> Some (q + 1)) \<and>
     obj_get (selectedItems (updateItemQuantity k (- 1) od)) k =
       (case obj_get (selectedItems od) k of None \<Rightarrow> None
        | Some q \<Rightarrow> if q - 1 \<le> 0 then None else Some (q - 1))"
proof -
  have inv: "\<forall>e\<in>set (selectedItems od). 0 < snd e"
    unfolding assms by (rule apply_clicks_positive) (simp add: initial_orderData_def)
  have inc: "obj_get (selectedItems (updateItemQuantity k 1 od)) k =
       (case obj_get (selectedItems od) k of None \<Rightarrow> Some 1 | Some q \<Rightarrow> Some (q + 1))"
    using obj_get_positive [OF inv, of k]
    by (cases "obj_get (selectedItems od) k")
       (auto simp: updateItemQuantity_def or_zero_def obj_get_set obj_get_delete Let_def)
  have dec: "obj_get (selectedItems (updateItemQuantity k (- 1) od)) k =
       (case obj_get (selectedItems od) k of None \<Rightarrow> None
        | Some q \<Rightarrow> if q - 1 \<le> 0 then None else Some (q - 1))"
    using obj_get_positive [OF inv, of k]
    by (cases "obj_get (selectedItems od) k")
       (auto simp: updateItemQuantity_def or_zero_def obj_get_set obj_get_delete Let_def)
  from inv inc dec show ?thesis by blast
qed

theorem cart_quantities_positive_witness:
  "selectedItems (apply_clicks initial_orderData
       [Increment ''B'', Increment ''A'', Decrement ''B'', Increment ''A'']) = [(''A'', 2)] \<and>
   list_all (\<lambda>e. 0 < snd e) (selectedItems (apply_clicks initial_orderData
       [Increment ''B'', Increment ''A'', Decrement ''B'', Increment ''A''])) \<and>
   obj_get (selectedItems (updateItemQuantity ''A'' (- 1) (apply_clicks initial_orderData
       [Increment ''B'', Increment ''A'', Decrement ''B'', Increment ''A'']))) ''A'' = Some 1"
  using cart_quantities_positive [of "apply_clicks initial_orderData
       [Increment ''B'', Increment ''A'', Decrement ''B'', Increment ''A'']"
       "[Increment ''B'', Increment ''A'', Decrement ''B'', Increment ''A'']" "''A''"]
  by (simp add: eval_cart)

text \<open>
  C10. A decrement of a product id that the cart does not hold returns the draft as it
  was: \<open>selectedItems\<close> has the same entries in the same order, no key is added, and
  name, phone, payment method and time are the same. The handler has no raising branch.
\<close>

theorem decrement_absent_noop:
  "obj_get (selectedItems od) k = None \<Longrightarrow> updateItemQuantity k (- 1) od = od"
  by (simp add: updateItemQuantity_def or_zero_def obj_delete_absent)

theorem decrement_absent_noop_witness:
  "obj_get [(''A'', 2)] ''B'' = None \<and>
   updateItemQuantity ''B'' (- 1)
     \<lparr>name = ''Ana'', phone = ''(770) 111-2222'', selectedItems = [(''A'', 2)],
      paymentMethod = Cash, time = ''10:00''\<rparr> =
     \<lparr>name = ''Ana'', phone = ''(770) 111-2222'', selectedItems = [(''A'', 2)],
      paymentMethod = Cash, time = ''10:00''\<rparr>"
  using decrement_absent_noop [of "\<lparr>name = ''Ana'', phone = ''(770) 111-2222'',
      selectedItems = [(''A'', 2)], paymentMethod = Cash, time = ''10:00''\<rparr>" "''B''"]
  by (simp add: obj_get_def)

subsection \<open>Total\<close>

lemma foldl_total:
  "foldl (\<lambda>acc e. acc + (case find_product ps (fst e) of Some p \<Rightarrow> price p | None \<Rightarrow> 0)
        * of_int (snd e)) a cart = a + sum_list (map (entry_amount ps) cart)"
proof (induction cart arbitrary: a)
  case Nil
  then show ?case by simp
next
  case (Cons e cart)
  have "(case find_product ps (fst e) of Some p \<Rightarrow> price p | None \<Rightarrow> 0) * of_int (snd e) =
      entry_amount ps e"
    by (simp add: entry_amount_def catalog_price_def split: option.splits)
  then show ?case
    using Cons.IH by (simp add: add.assoc)
qed

lemma total_sum: "total ps cart = sum_list (map (entry_amount ps) cart)"
  unfolding total_def Let_def by (simp add: foldl_total)

lemma catalog_price_absent: "k \<notin> pid ` set ps \<Longrightarrow> catalog_price ps k = None"
  unfolding catalog_price_def find_product_def
  by (auto simp: find_None_iff)

text \<open>
  C2. For every cart and every catalog, \<open>total\<close> is the sum over the cart entries of the
  quantity times the price that the catalog given to it holds for the entry's product
  id. An entry whose id the catalog does not hold contributes zero, so the total is
  the same with or without it. \<open>total\<close> is a total function without a raising branch:
  the lookup that finds nothing takes the price 0.
\<close>

theorem total_is_sum_of_current_prices:
  "total ps cart = sum_list (map (entry_amount ps) cart) \<and>
   (\<forall>e\<in>set cart. \<forall>p. find_product ps (fst e) = Some p \<longrightarrow>
      entry_amount ps e = of_int (snd e) * price p) \<and>
   (k \<notin> pid ` set ps \<longrightarrow>
      entry_amount ps (k, q) = 0 \<and> total ps (xs @ (k, q) # ys) = total ps (xs @ ys))"
  by (simp add: total_sum entry_amount_def catalog_price_def catalog_price_absent
      [unfolded catalog_price_def])

theorem total_is_sum_of_current_prices_witness:
  "''Z'' \<notin> pid ` set [\<lparr>pid = ''A'', pname = ''Bolo'', price = 5, description = None, image = None\<rparr>,
       \<lparr>pid = ''B'', pname = ''Quiche'', price = 7 / 2, description = None, image = None\<rparr>] \<and>
   total [\<lparr>pid = ''A'', pname = ''Bolo'', price = 5, description = None, image = None\<rparr>,
       \<lparr>pid = ''B'', pname = ''Quiche'', price = 7 / 2, description = None, image = None\<rparr>]
     ([(''A'', 2)] @ (''Z'', 4) # [(''B'', 1)]) = 27 / 2 \<and>
   total [\<lparr>pid = ''A'', pname = ''Bolo'', price = 5, description = None, image = None\<rparr>,
       \<lparr>pid = ''B'', pname = ''Quiche'', price = 7 / 2, description = None, image = None\<rparr>]
     ([(''A'', 2)] @ [(''B'', 1)]) = 27 / 2"
  using total_is_sum_of_current_prices
    [of "[\<lparr>pid = ''A'', pname = ''Bolo'', price = 5, description = None, image = None\<rparr>,
       \<lparr>pid = ''B'', pname = ''Quiche'', price = 7 / 2, description = None, image = None\<rparr>]"
      "[(''A'', 2), (''Z'', 4), (''B'', 1)]" "''Z''" 4 "[(''A'', 2)]" "[(''B'', 1)]"]
  by (simp add: total_def find_product_def)

subsection \<open>Contact validation\<close>

lemma matches_all_Nil: "matches_all [] s \<longleftrightarrow> s = []"
  by (cases s) auto

lemma matches_all_Cons:
  "matches_all (a # as) s \<longleftrightarrow> (\<exists>c cs. s = c # cs \<and> atom_matches a c \<and> matches_all as cs)"
  by (cases s) auto

lemma matches_all_append:
  "matches_all (xs @ ys) s \<longleftrightarrow> (\<exists>u v. s = u @ v \<and> matches_all xs u \<and> matches_all ys v)"
proof (induction xs arbitrary: s)
  case Nil
  then show ?case by (simp add: matches_all_Nil)
next
  case (Cons a xs)
  show ?case
  proof (cases s)
    case Nil
    then show ?thesis by simp
  next
    case (Cons c cs)
    show ?thesis
    proof
      assume "matches_all ((a # xs) @ ys) s"
      with Cons Cons.IH [of cs] obtain u v where "cs = u @ v" "atom_matches a c"
          "matches_all xs u" "matches_all ys v"
        by auto
      with Cons have "s = (c # u) @ v \<and> matches_all (a # xs) (c # u) \<and> matches_all ys v"
        by simp
      then show "\<exists>u v. s = u @ v \<and> matches_all (a # xs) u \<and> matches_all ys v"
        by blast
    next
      assume "\<exists>u v. s = u @ v \<and> matches_all (a # xs) u \<and> matches_all ys v"
      then obtain u v where uv: "s = u @ v" "matches_all (a # xs) u" "matches_all ys v"
        by blast
      from uv(2) obtain c' u' where u: "u = c' # u'" "atom_matches a c'" "matches_all xs u'"
        by (auto simp: matches_all_Cons)
      with uv Cons have "c = c'" "cs = u' @ v"
        by simp_all
      with u uv(3) Cons Cons.IH [of cs] show "matches_all ((a # xs) @ ys) s"
        by auto
    qed
  qed
qed

lemma matches_all_digits:
  "matches_all (replicate n Digit) u \<longleftrightarrow> length u = n \<and> list_all is_digit u"
proof (induction n arbitrary: u)
  case 0
  then show ?case by (auto simp: matches_all_Nil)
next
  case (Suc n)
  then show ?case by (cases u) auto
qed

lemma matches_all_lit: "matches_all [Lit a] u \<longleftrightarrow> u = [a]"
  by (auto simp: matches_all_Cons matches_all_Nil)

lemma matches_all_lit2: "matches_all [Lit a, Lit b] u \<longleftrightarrow> u = [a, b]"
  by (auto simp: matches_all_Cons matches_all_Nil)

lemma validatePhone_shape: "validatePhone s \<longleftrightarrow> phone_shape s"
  unfolding validatePhone_def phoneRegex_def phone_shape_def
  by (simp only: matches_all_append matches_all_digits matches_all_lit matches_all_lit2) (simp, blast)

lemma phone_shape_length: "phone_shape s \<Longrightarrow> length s = 14"
  unfolding phone_shape_def by auto

lemma phone_shape_paren: "phone_shape s \<Longrightarrow> hd s = CHR ''('' \<and> s \<noteq> []"
  unfolding phone_shape_def by auto

lemma phoneRegex_atoms:
  "phoneRegex = [Lit CHR ''('', Digit, Digit, Digit, Lit CHR '')'', Lit CHR '' '', Digit, Digit, Digit,
     Lit CHR ''-'', Digit, Digit, Digit, Digit]"
  by (simp add: phoneRegex_def eval_nat_numeral)

lemmas eval_phone = validatePhone_def phoneRegex_atoms is_digit_def

text \<open>
  C4. \<open>validatePhone\<close> holds of a string exactly when the string is an opening
  parenthesis, three digits, a closing parenthesis, a space, three digits, a dash and
  four digits. A string of digits only is refused, and so is every string whose length
  is not 14, which covers the partial groupings.
\<close>

theorem validatePhone_exact:
  "(validatePhone s \<longleftrightarrow> phone_shape s) \<and>
   (list_all is_digit s \<longrightarrow> \<not> validatePhone s) \<and>
   (length s \<noteq> 14 \<longrightarrow> \<not> validatePhone s)"
proof (intro conjI impI)
  show "validatePhone s \<longleftrightarrow> phone_shape s"
    by (rule validatePhone_shape)
next
  assume dig: "list_all is_digit s"
  show "\<not> validatePhone s"
  proof
    assume "validatePhone s"
    then have "hd s = CHR ''('' \<and> s \<noteq> []"
      by (simp add: validatePhone_shape phone_shape_paren)
    with dig have "is_digit CHR ''(''"
      by (cases s) auto
    then show False
      by (simp add: is_digit_def)
  qed
next
  assume "length s \<noteq> 14"
  then show "\<not> validatePhone s"
    using phone_shape_length [of s] by (auto simp: validatePhone_shape)
qed

theorem validatePhone_exact_witness:
  "validatePhone ''(770) 111-2222'' \<and> phone_shape ''(770) 111-2222'' \<and>
   list_all is_digit ''7701112222'' \<and> \<not> validatePhone ''7701112222'' \<and>
   length ''(770) 111'' \<noteq> 14 \<and> \<not> validatePhone ''(770) 111''"
proof -
  have "validatePhone ''(770) 111-2222''"
    by (simp add: eval_phone)
  moreover have "list_all is_digit ''7701112222''"
    by (simp add: is_digit_def)
  moreover have "length ''(770) 111'' \<noteq> 14"
    by simp
  ultimately show ?thesis
    using validatePhone_exact [of "''(770) 111-2222''"] validatePhone_exact [of "''7701112222''"]
      validatePhone_exact [of "''(770) 111''"]
    by blast
qed

subsection \<open>Date and slot selection\<close>

lemmas eval_date = format_ymd_def format_dmy_def pad_def show_nat.simps digit_char_def isSunday_def
  day_of_week_def
  month_offset_def date_before_def filterDate_def

text \<open>
  C3. A click on a day of the calendar leaves the state as it was when the day is a
  Sunday, whatever the availability map holds, and when the map marks the day
  \<open>sold_out\<close>. Every other day that is not before today becomes the selected date,
  also a day the map does not hold. The Sunday is refused by the \<open>filterDate\<close> prop of
  the calendar, the sold-out day by \<open>handleDateSelect\<close>.
\<close>

theorem date_selection:
  "(isSunday d \<longrightarrow> datePicker_select today d st = st) \<and>
   (availability st (format_ymd d) = Some SoldOut \<longrightarrow> datePicker_select today d st = st) \<and>
   (\<not> isSunday d \<and> availability st (format_ymd d) \<noteq> Some SoldOut \<and> \<not> date_before d today \<longrightarrow>
      datePicker_select today d st = st\<lparr>selectedDate := Some d\<rparr>)"
  by (simp add: datePicker_select_def handleDateSelect_def filterDate_def)

theorem date_selection_witness:
  "isSunday \<lparr>year = 2026, month = 3, day = 1\<rparr> \<and>
   datePicker_select \<lparr>year = 2026, month = 2, day = 27\<rparr> \<lparr>year = 2026, month = 3, day = 1\<rparr>
     example_state = example_state \<and>
   availability example_state (format_ymd \<lparr>year = 2026, month = 3, day = 3\<rparr>) = Some SoldOut \<and>
   datePicker_select \<lparr>year = 2026, month = 2, day = 27\<rparr> \<lparr>year = 2026, month = 3, day = 3\<rparr>
     example_state = example_state \<and>
   \<not> isSunday \<lparr>year = 2026, month = 3, day = 2\<rparr> \<and>
   availability example_state (format_ymd \<lparr>year = 2026, month = 3, day = 2\<rparr>) = None \<and>
   \<not> date_before \<lparr>year = 2026, month = 3, day = 2\<rparr> \<lparr>year = 2026, month = 2, day = 27\<rparr> \<and>
   selectedDate (datePicker_select \<lparr>year = 2026, month = 2, day = 27\<rparr>
     \<lparr>year = 2026, month = 3, day = 2\<rparr> example_state) = Some \<lparr>year = 2026, month = 3, day = 2\<rparr>"
  using date_selection [of "\<lparr>year = 2026, month = 3, day = 1\<rparr>" "\<lparr>year = 2026, month = 2, day = 27\<rparr>" example_state]
    date_selection [of "\<lparr>year = 2026, month = 3, day = 3\<rparr>" "\<lparr>year = 2026, month = 2, day = 27\<rparr>" example_state]
    date_selection [of "\<lparr>year = 2026, month = 3, day = 2\<rparr>" "\<lparr>year = 2026, month = 2, day = 27\<rparr>" example_state]
  by (simp add: eval_date example_state_def initial_state_def)

text \<open>
  \<open>handleDateSelect\<close> has no test of the day of the week of its own: called with a
  Sunday that is not sold out, it selects it.
\<close>

lemma handleDateSelect_any_day:
  "availability st (format_ymd d) \<noteq> Some SoldOut \<Longrightarrow>
   handleDateSelect (Some d) st = st\<lparr>selectedDate := Some d\<rparr>"
  by (simp add: handleDateSelect_def)

lemma empty_not_slot: "[] \<notin> set TIME_SLOTS"
  by (simp add: TIME_SLOTS_def)

text \<open>
  C9. Loaded on the scheduling step with a date parameter and a time parameter, the
  workflow is on the order step afterwards exactly when the date parameter parses as a
  day that is not a Sunday and the time parameter is one of \<open>TIME_SLOTS\<close>; the day and
  the slot are then the selected ones. With a valid date and a slot that is absent or
  not in the list, the workflow stays on the scheduling step with the day selected and
  the draft as it was. With a date that does not parse, or a Sunday, nothing changes.
  An empty date parameter counts as one that does not parse.
\<close>

theorem query_preselection:
  assumes "page st = Schedule"
  shows "(page (fetchData parseDate (Some dp) tp st) = Order \<longleftrightarrow>
       (\<exists>d t. valid_date_param parseDate dp d \<and> tp = Some t \<and> t \<in> set TIME_SLOTS)) \<and>
     (\<forall>d t. valid_date_param parseDate dp d \<and> tp = Some t \<and> t \<in> set TIME_SLOTS \<longrightarrow>
        fetchData parseDate (Some dp) tp st =
          st\<lparr>selectedDate := Some d, orderData := (orderData st)\<lparr>time := t\<rparr>, page := Order\<rparr>) \<and>
     (\<forall>d. valid_date_param parseDate dp d \<and> (tp = None \<or> (\<exists>t. tp = Some t \<and> t \<notin> set TIME_SLOTS)) \<longrightarrow>
        fetchData parseDate (Some dp) tp st = st\<lparr>selectedDate := Some d\<rparr>) \<and>
     ((\<forall>d. \<not> valid_date_param parseDate dp d) \<longrightarrow> fetchData parseDate (Some dp) tp st = st)"
  using assms empty_not_slot
  by (auto simp: fetchData_def valid_date_param_def Let_def split: option.splits)

theorem query_preselection_witness:
  "page initial_state = Schedule \<and>
   valid_date_param example_parseDate ''2026-03-02'' \<lparr>year = 2026, month = 3, day = 2\<rparr> \<and>
   ''10:00'' \<in> set TIME_SLOTS \<and>
   fetchData example_parseDate (Some ''2026-03-02'') (Some ''10:00'') initial_state =
     initial_state\<lparr>selectedDate := Some \<lparr>year = 2026, month = 3, day = 2\<rparr>,
       orderData := (orderData initial_state)\<lparr>time := ''10:00''\<rparr>, page := Order\<rparr> \<and>
   ''10:15'' \<notin> set TIME_SLOTS \<and>
   fetchData example_parseDate (Some ''2026-03-02'') (Some ''10:15'') initial_state =
     initial_state\<lparr>selectedDate := Some \<lparr>year = 2026, month = 3, day = 2\<rparr>\<rparr>"
proof -
  have "page initial_state = Schedule"
    by (simp add: initial_state_def)
  moreover have "valid_date_param example_parseDate ''2026-03-02'' \<lparr>year = 2026, month = 3, day = 2\<rparr>"
    by (simp add: valid_date_param_def example_parseDate_def eval_date)
  moreover have "''10:00'' \<in> set TIME_SLOTS" "''10:15'' \<notin> set TIME_SLOTS"
    by (simp_all add: TIME_SLOTS_def)
  ultimately show ?thesis
    using query_preselection [of initial_state example_parseDate "''2026-03-02''" "Some ''10:00''"]
      query_preselection [of initial_state example_parseDate "''2026-03-02''" "Some ''10:15''"]
    by auto
qed

text \<open>
  The query string is not checked against the availability map: a valid date parameter
  is selected whatever the map holds for it.
\<close>

lemma fetchData_ignores_availability:
  "valid_date_param parseDate dp d \<Longrightarrow>
   selectedDate (fetchData parseDate (Some dp) tp st) = Some d"
  by (auto simp: fetchData_def valid_date_param_def Let_def split: option.splits)

subsection \<open>Submission\<close>

lemma example_total: "total (products example_draft) (selectedItems (orderData example_draft)) = 13"
  by (simp add: example_draft_def example_catalog_def total_def find_product_def)

lemma example_phone: "validatePhone (phone (orderData example_draft))"
  by (simp add: example_draft_def eval_phone)

lemma example_lines:
  "map (item_line (products example_draft)) (selectedItems (orderData example_draft)) =
     [''2x A'', ''1x B'']"
  by (simp add: example_draft_def example_catalog_def item_line_def find_product_def show_int_def
      show_nat.simps digit_char_def)

lemma example_summary:
  "itemsSummary (products example_draft) (selectedItems (orderData example_draft)) =
     ''2x A'' @ newline @ ''1x B''"
  by (simp add: itemsSummary_def example_lines)

lemma example_payload:
  "orderPayload example_draft \<lparr>year = 2026, month = 3, day = 2\<rparr> =
     \<lparr>customer_name = ''Ana'', customer_phone = ''(770) 111-2222'', order_date = ''2026-03-02'',
      order_time = ''10:00'', items = ''2x A'' @ newline @ ''1x B'', order_total = 13,
      payment_method = Zelle\<rparr>"
  unfolding orderPayload_def example_total example_summary
  by (simp add: example_draft_def eval_date)

lemma submitOrder_sends:
  assumes "selectedDate st = Some d"
    and "total (products st) (selectedItems (orderData st)) \<noteq> 0"
    and "validatePhone (phone (orderData st))"
  shows "requests (submitOrder server st) = [orderPayload st d]"
  using assms
  by (simp add: submitOrder_def Let_def split: fetch_result.splits option.splits json.splits)

text \<open>
  C5, as the code has it. For the draft of Ana and the catalog with A at 5.00 and B at
  3.00, \<open>submitOrder\<close> sends one request whose total is 13 and whose items summary is
  the two lines \<open>2x A\<close> and \<open>1x B\<close>, in the order of the cart: the quantity, the letter
  \<open>x\<close>, a space and the name of the product.
\<close>

theorem example_submission_payload:
  "requests (submitOrder server example_draft) =
     [\<lparr>customer_name = ''Ana'', customer_phone = ''(770) 111-2222'', order_date = ''2026-03-02'',
       order_time = ''10:00'', items = ''2x A'' @ newline @ ''1x B'', order_total = 13,
       payment_method = Zelle\<rparr>] \<and>
   map (item_line (products example_draft)) (selectedItems (orderData example_draft)) =
     [''2x A'', ''1x B'']"
proof -
  have "selectedDate example_draft = Some \<lparr>year = 2026, month = 3, day = 2\<rparr>"
    by (simp add: example_draft_def)
  then have "requests (submitOrder server example_draft) =
      [orderPayload example_draft \<lparr>year = 2026, month = 3, day = 2\<rparr>]"
    using example_total example_phone by (simp add: submitOrder_sends)
  then show ?thesis
    by (simp add: example_payload example_lines)
qed

text \<open>
  The items summary of that request is not the text of the two lines \<open>2xA\<close> and
  \<open>1xB\<close>.
\<close>

theorem example_summary_counterexample:
  "map items (requests (submitOrder accepting_server example_draft)) \<noteq>
     [''2xA'' @ newline @ ''1xB'']"
proof -
  have "selectedDate example_draft = Some \<lparr>year = 2026, month = 3, day = 2\<rparr>"
    by (simp add: example_draft_def)
  then have "requests (submitOrder accepting_server example_draft) =
      [orderPayload example_draft \<lparr>year = 2026, month = 3, day = 2\<rparr>]"
    using example_total example_phone by (simp add: submitOrder_sends)
  then show ?thesis
    by (simp add: example_payload)
qed

text \<open>
  C6, as the code has it. When no date is selected, or the total is 0, or the phone
  fails \<open>validatePhone\<close>, a submission sends no request and shows no alert; the draft
  is as it was, and so is the whole state apart from \<open>phoneError\<close>. For a missing date
  or a total of 0 the handler returns first: the state is untouched, \<open>phoneError\<close>
  included, whatever the phone is. When a date is selected and the total is not 0, a
  phone that fails \<open>validatePhone\<close> sets \<open>phoneError\<close> to the literal of the
  source, a request for a phone in the format \<open>(XXX) XXX-XXXX\<close>, which is not empty.
\<close>

theorem submission_preconditions:
  "(selectedDate st = None \<or> total (products st) (selectedItems (orderData st)) = 0 \<or>
      \<not> validatePhone (phone (orderData st)) \<longrightarrow>
      requests (submitOrder server st) = [] \<and> alerts (submitOrder server st) = [] \<and>
      orderData (state (submitOrder server st)) = orderData st \<and>
      state (submitOrder server st)\<lparr>phoneError := phoneError st\<rparr> = st) \<and>
   (selectedDate st = None \<or> total (products st) (selectedItems (orderData st)) = 0 \<longrightarrow>
      state (submitOrder server st) = st \<and>
      phoneError (state (submitOrder server st)) = phoneError st) \<and>
   (selectedDate st \<noteq> None \<and> total (products st) (selectedItems (orderData st)) \<noteq> 0 \<and>
      \<not> validatePhone (phone (orderData st)) \<longrightarrow>
      phoneError (state (submitOrder server st)) =
        ''Por favor, insira um telefone v'' @ [CHR 0xE1] @ ''lido no formato (XXX) XXX-XXXX'' \<and>
      phoneError (state (submitOrder server st)) \<noteq> [])"
  by (auto simp: submitOrder_def phone_error_message_def split: option.splits)

theorem submission_preconditions_witness:
  "selectedDate (example_draft\<lparr>selectedDate := None\<rparr>) = None \<and>
   requests (submitOrder accepting_server (example_draft\<lparr>selectedDate := None\<rparr>)) = [] \<and>
   state (submitOrder accepting_server (example_draft\<lparr>selectedDate := None\<rparr>)) =
     example_draft\<lparr>selectedDate := None\<rparr> \<and>
   total (products example_empty_cart) (selectedItems (orderData example_empty_cart)) = 0 \<and>
   requests (submitOrder accepting_server example_empty_cart) = [] \<and>
   state (submitOrder accepting_server example_empty_cart) = example_empty_cart \<and>
   selectedDate example_bad_phone \<noteq> None \<and>
   total (products example_bad_phone) (selectedItems (orderData example_bad_phone)) \<noteq> 0 \<and>
   \<not> validatePhone (phone (orderData example_bad_phone)) \<and>
   requests (submitOrder accepting_server example_bad_phone) = [] \<and>
   orderData (state (submitOrder accepting_server example_bad_phone)) = orderData example_bad_phone \<and>
   phoneError (state (submitOrder accepting_server example_bad_phone)) =
     ''Por favor, insira um telefone v'' @ [CHR 0xE1] @ ''lido no formato (XXX) XXX-XXXX''"
proof -
  have "selectedDate (example_draft\<lparr>selectedDate := None\<rparr>) = None"
    by simp
  moreover have "total (products example_empty_cart) (selectedItems (orderData example_empty_cart)) = 0"
    by (simp add: example_empty_cart_def total_def)
  moreover have "selectedDate example_bad_phone \<noteq> None"
    by (simp add: example_bad_phone_def example_draft_def)
  moreover have "total (products example_bad_phone) (selectedItems (orderData example_bad_phone)) \<noteq> 0"
    using example_total by (simp add: example_bad_phone_def)
  moreover have "\<not> validatePhone (phone (orderData example_bad_phone))"
    by (simp add: example_bad_phone_def eval_phone)
  ultimately show ?thesis
    using submission_preconditions [of "example_draft\<lparr>selectedDate := None\<rparr>" accepting_server]
      submission_preconditions [of example_empty_cart accepting_server]
      submission_preconditions [of example_bad_phone accepting_server]
    by simp
qed

text \<open>
  With no date selected the malformed phone sets no message: the phone of this draft
  fails \<open>validatePhone\<close>, and after the submission \<open>phoneError\<close> is still empty.
\<close>

theorem submission_phone_error_counterexample:
  "selectedDate example_no_date_bad_phone = None \<and>
   \<not> validatePhone (phone (orderData example_no_date_bad_phone)) \<and>
   phoneError example_no_date_bad_phone = [] \<and>
   phoneError (state (submitOrder accepting_server example_no_date_bad_phone)) = []"
  by (simp add: example_no_date_bad_phone_def example_bad_phone_def example_draft_def
      submitOrder_def eval_phone)



subsection \<open>Reading the items summary back\<close>

lemma split_items_sep_free: "sep_free l \<Longrightarrow> split_items l = [l]"
proof (induction l rule: has_comma_space.induct)
  case (3 c d cs)
  then have "sep_free (d # cs)" and "\<not> (c = CHR '','' \<and> d = CHR '' '')" and "c \<noteq> CHR 0x0A"
    by (auto simp: sep_free_def)
  with 3 show ?case
    by (simp add: push_char_def)
next
  case 1
  then show ?case by simp
next
  case (2 v)
  then show ?case by (simp add: sep_free_def)
qed

lemma split_items_newline: "split_items (CHR 0x0A # rest) = [] # split_items rest"
  by (cases rest) simp_all

lemma split_items_line:
  "sep_free l \<Longrightarrow> split_items (l @ CHR 0x0A # rest) = l # split_items rest"
proof (induction l rule: has_comma_space.induct)
  case (3 c d cs)
  then have "sep_free (d # cs)" and "\<not> (c = CHR '','' \<and> d = CHR '' '')" and "c \<noteq> CHR 0x0A"
    by (auto simp: sep_free_def)
  with 3 show ?case
    by (simp add: push_char_def)
next
  case 1
  then show ?case by (simp add: split_items_newline)
next
  case (2 v)
  then have "v \<noteq> CHR 0x0A"
    by (simp add: sep_free_def)
  then show ?case
    by (simp add: split_items_newline push_char_def)
qed

lemma js_join_Cons:
  "js_join sep (x # xs) = (if xs = [] then x else x @ sep @ js_join sep xs)"
  by (cases xs) simp_all

lemma split_items_join:
  "\<forall>l\<in>set (x # xs). sep_free l \<Longrightarrow> split_items (js_join newline (x # xs)) = x # xs"
proof (induction xs arbitrary: x)
  case Nil
  then show ?case by (simp add: split_items_sep_free)
next
  case (Cons y ys)
  then have "split_items (js_join newline (y # ys)) = y # ys" and "sep_free x"
    by simp_all
  then show ?case
    by (simp add: newline_def split_items_line)
qed

lemma has_comma_space_Cons:
  "has_comma_space (c # s) \<longleftrightarrow> (c = CHR '','' \<and> s \<noteq> [] \<and> hd s = CHR '' '') \<or> has_comma_space s"
  by (cases s) auto

lemma digit_facts: "is_digit c \<Longrightarrow> c \<noteq> CHR '','' \<and> c \<noteq> CHR 0x0A \<and> c \<noteq> CHR ''x''"
  by (auto simp: is_digit_def)

lemma digits_prefix_sep_free:
  "list_all is_digit ds \<Longrightarrow> sep_free t \<Longrightarrow> sep_free (ds @ t)"
proof (induction ds)
  case Nil
  then show ?case by simp
next
  case (Cons c ds)
  then have "sep_free (ds @ t)" and "c \<noteq> CHR '',''" and "c \<noteq> CHR 0x0A"
    by (simp_all add: digit_facts)
  then show ?case
    by (simp add: sep_free_def has_comma_space_Cons)
qed

lemma line_terminator_newline: "\<not> list_ex is_line_terminator n \<Longrightarrow> CHR 0x0A \<notin> set n"
  by (auto simp: list_ex_iff is_line_terminator_def)

lemma clean_name_sep_free: "clean_name n \<Longrightarrow> sep_free (''x '' @ n)"
  unfolding clean_name_def sep_free_def
  by (auto simp: has_comma_space_Cons dest: line_terminator_newline)

lemma takeWhile_digits: "list_all is_digit ds \<Longrightarrow> takeWhile is_digit (ds @ CHR ''x'' # r) = ds"
  by (induction ds) (simp_all add: is_digit_def)

lemma dropWhile_digits:
  "list_all is_digit ds \<Longrightarrow> dropWhile is_digit (ds @ CHR ''x'' # r) = CHR ''x'' # r"
  by (induction ds) (simp_all add: is_digit_def)

lemma match_item_line:
  assumes "clean_name n"
  shows "match_item (show_nat q @ ''x '' @ n) = Some (show_nat q, n)"
proof -
  from assms obtain c cs where n: "n = c # cs" and c: "\<not> is_space c"
    and lt: "\<not> list_ex is_line_terminator n"
    unfolding clean_name_def by (cases n) auto
  have sp: "is_space CHR '' ''"
    by (simp add: is_space_def)
  have "takeWhile is_digit (show_nat q @ CHR ''x'' # CHR '' '' # n) = show_nat q"
    and "dropWhile is_digit (show_nat q @ CHR ''x'' # CHR '' '' # n) = CHR ''x'' # CHR '' '' # n"
    by (simp_all add: takeWhile_digits dropWhile_digits show_nat_digits)
  then show ?thesis
    using n c lt sp show_nat_nonempty [of q]
    by (simp add: match_item_def Let_def)
qed

lemma js_trim_clean: "clean_name n \<Longrightarrow> js_trim n = n"
proof -
  assume a: "clean_name n"
  then have "dropWhile is_space n = n"
    unfolding clean_name_def by (cases n) auto
  moreover from a have "dropWhile is_space (rev n) = rev n"
    unfolding clean_name_def by (cases "rev n") (auto simp: last_rev [symmetric] simp del: last_rev)
  ultimately show ?thesis
    by (simp add: js_trim_def)
qed

lemma entry_ok_line:
  assumes "entry_ok ps e"
  obtains p where "find_product ps (fst e) = Some p" and "clean_name (pname p)"
    and "item_line ps e = show_nat (nat (snd e)) @ ''x '' @ pname p" and "0 < snd e"
  using assms
  by (auto simp: entry_ok_def item_line_def show_int_def split: option.splits)

lemma find_by_name_id:
  assumes "names_identify ps" and "find_product ps k = Some p"
  obtains p' where "find_by_name ps (pname p) = Some p'" and "pid p' = k"
proof -
  from assms(2) have p: "p \<in> set ps" "pid p = k"
    unfolding find_product_def by (auto simp: find_Some_iff)
  then have "find_by_name ps (pname p) \<noteq> None"
    unfolding find_by_name_def by (auto simp: find_None_iff)
  then obtain p' where f: "find_by_name ps (pname p) = Some p'"
    by auto
  then have "p' \<in> set ps" "pname p' = pname p"
    unfolding find_by_name_def by (auto simp: find_Some_iff)
  with assms(1) p have "pid p' = k"
    unfolding names_identify_def by metis
  with f that show ?thesis
    by blast
qed

lemma read_part_line:
  assumes "names_identify ps" and "entry_ok ps e"
  shows "read_part ps acc (item_line ps e) = obj_set acc (fst e) (snd e)"
proof -
  from assms(2) obtain p where p: "find_product ps (fst e) = Some p" "clean_name (pname p)"
    "item_line ps e = show_nat (nat (snd e)) @ ''x '' @ pname p" "0 < snd e"
    by (rule entry_ok_line)
  from assms(1) p(1) obtain p' where p': "find_by_name ps (pname p) = Some p'" "pid p' = fst e"
    by (rule find_by_name_id)
  have "match_item (item_line ps e) = Some (show_nat (nat (snd e)), pname p)"
    unfolding p(3) by (rule match_item_line [OF p(2)])
  then show ?thesis
    using p(2,4) p'
    by (simp add: read_part_def js_trim_clean parse_show_nat)
qed

lemma item_line_sep_free:
  assumes "entry_ok ps e"
  shows "sep_free (item_line ps e)" and "item_line ps e \<noteq> []"
proof -
  from assms obtain p where p: "find_product ps (fst e) = Some p" "clean_name (pname p)"
    "item_line ps e = show_nat (nat (snd e)) @ ''x '' @ pname p" "0 < snd e"
    by (rule entry_ok_line)
  show "sep_free (item_line ps e)"
    unfolding p(3) by (rule digits_prefix_sep_free [OF show_nat_digits clean_name_sep_free [OF p(2)]])
  from p(3) show "item_line ps e \<noteq> []"
    by simp
qed

lemma foldl_read_part:
  assumes "names_identify ps"
  shows "\<forall>e\<in>set cart. entry_ok ps e \<Longrightarrow>
    foldl (read_part ps) acc (map (item_line ps) cart) =
    foldl (\<lambda>a e. obj_set a (fst e) (snd e)) acc cart"
  by (induction cart arbitrary: acc) (simp_all add: read_part_line [OF assms])

lemma obj_get_foldl_set:
  "distinct (map fst cart) \<Longrightarrow>
   obj_get (foldl (\<lambda>a e. obj_set a (fst e) (snd e)) acc cart) k =
     (case map_of cart k of Some v \<Rightarrow> Some v | None \<Rightarrow> obj_get acc k)"
proof (induction cart arbitrary: acc)
  case Nil
  then show ?case by simp
next
  case (Cons e cart)
  then have "fst e \<notin> fst ` set cart" and "distinct (map fst cart)"
    by simp_all
  then have "map_of cart (fst e) = None"
    by (simp add: map_of_eq_None_iff)
  with Cons.IH [OF \<open>distinct (map fst cart)\<close>, of "obj_set acc (fst e) (snd e)"]
  show ?case
    by (cases e) (auto simp: obj_get_set split: option.splits)
qed

lemma startEditingOrder_summary:
  assumes "names_identify ps" and "\<forall>e\<in>set cart. entry_ok ps e"
  shows "startEditingOrder ps (itemsSummary ps cart) =
    foldl (\<lambda>a e. obj_set a (fst e) (snd e)) [] cart"
proof (cases cart)
  case Nil
  then show ?thesis
    by (simp add: startEditingOrder_def itemsSummary_def)
next
  case (Cons e es)
  have sf: "\<forall>l\<in>set (item_line ps e # map (item_line ps) es). sep_free l"
    using assms(2) Cons by (auto simp: item_line_sep_free)
  have ne: "\<forall>l\<in>set (map (item_line ps) cart). l \<noteq> []"
    using assms(2) by (auto simp: item_line_sep_free)
  have "split_items (itemsSummary ps cart) = map (item_line ps) cart"
    using split_items_join [OF sf] Cons by (simp add: itemsSummary_def)
  moreover have "filter (\<lambda>p. p \<noteq> []) (map (item_line ps) cart) = map (item_line ps) cart"
    using ne by (simp add: filter_id_conv)
  ultimately show ?thesis
    using foldl_read_part [OF assms] by (simp add: startEditingOrder_def)
qed

text \<open>
  C8, as the code has it. Take a draft whose cart holds each key once, with a quantity
  above zero, for a product of the catalog whose name is clean (not empty, no white space
  at either end, no comma followed by a space, no line terminator), and a catalog in
  which no name belongs to two ids. The message of \<open>sendWhatsApp\<close> carries the items
  summary between its heading and its closing lines, and reading the lines of that
  summary the way \<open>startEditingOrder\<close> reads an items text gives back, for every product
  id, the quantity of the cart.
\<close>

theorem items_round_trip:
  assumes "distinct (map fst (selectedItems (orderData st)))"
    and "\<forall>e\<in>set (selectedItems (orderData st)). entry_ok (products st) e"
    and "names_identify (products st)"
  shows "sendWhatsApp st =
      message_before_items st @
      itemsSummary (products st) (selectedItems (orderData st)) @
      message_after_items st \<and>
    (\<forall>k. obj_get (startEditingOrder (products st)
        (itemsSummary (products st) (selectedItems (orderData st)))) k =
      obj_get (selectedItems (orderData st)) k)"
proof -
  have "obj_get (startEditingOrder (products st)
        (itemsSummary (products st) (selectedItems (orderData st)))) k =
      obj_get (selectedItems (orderData st)) k" for k
    unfolding startEditingOrder_summary [OF assms(3) assms(2)] obj_get_foldl_set [OF assms(1)]
    by (simp add: obj_get_def split: option.splits)
  then show ?thesis
    by (simp add: sendWhatsApp_def)
qed

lemmas eval_read = startEditingOrder_def read_part_def match_item_def js_trim_def find_by_name_def
  is_space_def is_line_terminator_def is_digit_def parse_nat_def digit_val_def push_char_def
  itemsSummary_def item_line_def find_product_def show_int_def show_nat.simps digit_char_def
  newline_def obj_get_def obj_set_def is_array_index_def

text \<open>
  A product named \<open>Queijo, doce\<close> is in the catalog and twice in the cart; its line is
  cut at the comma, no part names a product, and the quantity read back is none.
\<close>

theorem items_round_trip_counterexample:
  "find_product (products example_comma_draft) ''1'' \<noteq> None \<and>
   obj_get (selectedItems (orderData example_comma_draft)) ''1'' = Some 2 \<and>
   obj_get (startEditingOrder (products example_comma_draft)
     (itemsSummary (products example_comma_draft) (selectedItems (orderData example_comma_draft))))
     ''1'' = None"
  by (simp add: example_comma_draft_def example_comma_catalog_def eval_read)

lemma example_comma_parts:
  "split_items (itemsSummary example_comma_catalog [(''1'', 2)]) = [''2x Queijo'', ''doce'']"
  by (simp add: example_comma_catalog_def eval_read)

theorem items_round_trip_witness:
  "distinct (map fst (selectedItems (orderData example_draft))) \<and>
   list_all (entry_ok (products example_draft)) (selectedItems (orderData example_draft)) \<and>
   names_identify (products example_draft) \<and>
   obj_get (startEditingOrder (products example_draft)
     (itemsSummary (products example_draft) (selectedItems (orderData example_draft)))) ''A'' = Some 2 \<and>
   obj_get (startEditingOrder (products example_draft)
     (itemsSummary (products example_draft) (selectedItems (orderData example_draft)))) ''B'' = Some 1"
proof -
  have d: "distinct (map fst (selectedItems (orderData example_draft)))"
    by (simp add: example_draft_def)
  have e: "\<forall>e\<in>set (selectedItems (orderData example_draft)). entry_ok (products example_draft) e"
    by (simp add: example_draft_def example_catalog_def entry_ok_def find_product_def
        clean_name_def is_space_def is_line_terminator_def)
  have n: "names_identify (products example_draft)"
    by (simp add: example_draft_def example_catalog_def names_identify_def)
  have "obj_get (selectedItems (orderData example_draft)) ''A'' = Some 2"
    and "obj_get (selectedItems (orderData example_draft)) ''B'' = Some 1"
    by (simp_all add: example_draft_def obj_get_def)
  with d e n show ?thesis
    using items_round_trip [OF d e n]
    by (simp add: list_all_iff)
qed

text \<open>
  The other conditions are needed as well: a name that ends with a space is trimmed and
  not found, and a name shared by two products is read as the first of them.
\<close>

lemma trailing_space_not_read:
  "obj_get (startEditingOrder
      [\<lparr>pid = ''1'', pname = ''Bolo '', price = 5, description = None, image = None\<rparr>]
      (itemsSummary [\<lparr>pid = ''1'', pname = ''Bolo '', price = 5, description = None, image = None\<rparr>]
        [(''1'', 2)])) ''1'' = None"
  by (simp add: eval_read)

lemma shared_name_read_as_first:
  "startEditingOrder
      [\<lparr>pid = ''1'', pname = ''Bolo'', price = 5, description = None, image = None\<rparr>,
       \<lparr>pid = ''2'', pname = ''Bolo'', price = 7, description = None, image = None\<rparr>]
      (itemsSummary
        [\<lparr>pid = ''1'', pname = ''Bolo'', price = 5, description = None, image = None\<rparr>,
         \<lparr>pid = ''2'', pname = ''Bolo'', price = 7, description = None, image = None\<rparr>]
        [(''2'', 3)]) = [(''1'', 3)]"
  by (simp add: eval_read)

text \<open>Every cart built by clicks from the empty cart holds each key once.\<close>

lemma distinct_insert_index:
  "k \<notin> fst ` set ob \<Longrightarrow> distinct (map fst ob) \<Longrightarrow> distinct (map fst (insert_index k v ob))"
  by (induction ob) (auto simp: set_insert_index)

lemma map_fst_replace: "map fst (map (\<lambda>e. if fst e = k then (k, v) else e) ob) = map fst ob"
  by (induction ob) auto

lemma distinct_obj_set: "distinct (map fst ob) \<Longrightarrow> distinct (map fst (obj_set ob k v))"
  unfolding obj_set_def
  by (auto simp: distinct_insert_index map_fst_replace simp del: map_map)

lemma distinct_obj_delete: "distinct (map fst ob) \<Longrightarrow> distinct (map fst (obj_delete ob k))"
  unfolding obj_delete_def by (simp add: distinct_map_filter)

lemma updateItemQuantity_distinct:
  "distinct (map fst (selectedItems od)) \<Longrightarrow>
   distinct (map fst (selectedItems (updateItemQuantity k delta od)))"
  by (simp add: updateItemQuantity_def Let_def distinct_obj_set distinct_obj_delete)

lemma apply_clicks_distinct:
  "distinct (map fst (selectedItems od)) \<Longrightarrow> distinct (map fst (selectedItems (apply_clicks od cs)))"
  unfolding apply_clicks_def
proof (induction cs arbitrary: od)
  case Nil
  then show ?case by simp
next
  case (Cons c cs)
  have "distinct (map fst (selectedItems (apply_click od c)))"
    using Cons.prems by (cases c) (simp_all add: updateItemQuantity_distinct)
  then show ?case
    using Cons.IH by simp
qed

end
